theory Spec2Isabelle
  imports Complex_Main
begin

chapter \<open>GOODWORDS: the toxicity detector's browser extension and web page\<close>

text \<open>
  The repository holds a Chrome extension (a service worker, a content script and a popup)
  and a web page, all clients of a detection backend reached over HTTP. This theory embeds
  the clients' decisions as functions: what the service worker answers and caches, when the
  content script warns or rewrites, and which inputs lead to a request at all. The
  backend's analysis pipeline is not part of the sources; the few rules of it that are
  needed are taken from its specification and marked as such.
\<close>

section \<open>JavaScript strings\<close>

text \<open>
  A JavaScript string is a sequence of UTF-16 code units. Here a \<open>char\<close> stands for one code
  unit below 256 (the Latin-1 range, which holds all of ASCII), so \<open>length\<close> is the
  \<open>.length\<close> of the source and the empty list is the only falsy string. On that range
  \<open>String.prototype.toLowerCase\<close> adds 32 to the letters A-Z (65-90) and to the accented
  capitals 192-222 other than the multiplication sign 215, and \<open>String.prototype.trim\<close>
  strips the code units 9-13, 32 and 160 from both ends.
\<close>

definition is_upper :: "char \<Rightarrow> bool" where
  "is_upper c =
     (let n = (of_char c :: nat)
      in (65 \<le> n \<and> n \<le> 90) \<or> (192 \<le> n \<and> n \<le> 222 \<and> n \<noteq> 215))"

definition lower_char :: "char \<Rightarrow> char" where
  "lower_char c = (if is_upper c then char_of ((of_char c :: nat) + 32) else c)"

definition toLowerCase :: "string \<Rightarrow> string" where
  "toLowerCase s = map lower_char s"

definition is_whitespace :: "char \<Rightarrow> bool" where
  "is_whitespace c = ((of_char c :: nat) \<in> {9, 10, 11, 12, 13, 32, 160})"

definition trim :: "string \<Rightarrow> string" where
  "trim s = rev (dropWhile is_whitespace (rev (dropWhile is_whitespace s)))"

text \<open>The decimal digits of a number, as a template literal prints an HTTP status.\<close>

fun decimal :: "nat \<Rightarrow> string" where
  "decimal n =
     (if n < 10 then [char_of (48 + n)]
      else decimal (n div 10) @ [char_of (48 + n mod 10)])"

declare decimal.simps [simp del]

section \<open>The backend seen from the extension\<close>

text \<open>
  The objects exchanged with the backend, with the fields the extension reads and the types
  the documented API gives them; a reply of another shape is outside the model. Numbers are
  reals: every finite double is one, and the code only compares them. A detection result
  carries \<open>error\<close> when the service worker built it after a failure.
\<close>

record detection_result =
  is_toxic :: bool
  confidence :: real
  toxic_labels :: "string list"
  scores :: "(string \<times> real) list"
  error :: "string option"

record detox_result =
  detoxified_text :: "string option"
  detox_error :: "string option"

text \<open>
  A request is a POST of the JSON object \<open>{text: text}\<close> to an endpoint: nothing but the
  text travels with it.
\<close>

record request =
  url :: string
  body_text :: string

text \<open>
  What \<open>fetch\<close> can do: reject (a network error), or resolve to a response with a status
  whose body either parses as JSON or makes \<open>response.json()\<close> reject.
\<close>

datatype 'a json_body = InvalidJson string | Json 'a

record 'a http_response =
  status :: nat
  body :: "'a json_body"

datatype 'a fetch_result = NetworkFailure string | Responded "'a http_response"

definition ok :: "'a http_response \<Rightarrow> bool" where
  "ok r = (200 \<le> status r \<and> status r \<le> 299)"

definition API_BASE_URL :: string where
  "API_BASE_URL = ''http://localhost:8000/api''"

definition detect_request :: "string \<Rightarrow> request" where
  "detect_request text = \<lparr>url = API_BASE_URL @ ''/detect'', body_text = text\<rparr>"

definition detoxify_request :: "string \<Rightarrow> request" where
  "detoxify_request text = \<lparr>url = API_BASE_URL @ ''/detoxify'', body_text = text\<rparr>"

text \<open>
  The body of both handlers' \<open>try\<close> blocks: fetch, throw on a status that is not OK, parse
  the JSON. \<open>Inl msg\<close> is a thrown error with \<open>error.message = msg\<close>.
\<close>

definition fetch_json :: "(request \<Rightarrow> 'a fetch_result) \<Rightarrow> request \<Rightarrow> string + 'a" where
  "fetch_json backend req =
     (case backend req of
        NetworkFailure msg \<Rightarrow> Inl msg
      | Responded response \<Rightarrow>
          if \<not> ok response then Inl (''API error: '' @ decimal (status response))
          else (case body response of
                  InvalidJson msg \<Rightarrow> Inl msg
                | Json result \<Rightarrow> Inr result))"

section \<open>The service worker: detection with a cache\<close>

record cache_entry =
  result :: detection_result
  timestamp :: int

type_synonym cache = "string \<rightharpoonup> cache_entry"

definition CACHE_DURATION :: int where
  "CACHE_DURATION = 5 * 60 * 1000"

text \<open>
  The cache test \<open>cached && Date.now() - cached.timestamp < CACHE_DURATION\<close>: the entry
  when it is there and younger than the duration.
\<close>

definition lookup_fresh :: "cache \<Rightarrow> string \<Rightarrow> int \<Rightarrow> cache_entry option" where
  "lookup_fresh cache cacheKey now =
     (case cache cacheKey of
        None \<Rightarrow> None
      | Some cached \<Rightarrow> if now - timestamp cached < CACHE_DURATION then Some cached else None)"

text \<open>
  One run of the handler: the responses passed to \<open>sendResponse\<close>, the cache it leaves and
  the requests it made. \<open>now_lookup\<close> and \<open>now_store\<close> are the two readings of
  \<open>Date.now()\<close>, before the fetch and after it.
\<close>

record detect_outcome =
  sent :: "detection_result list"
  cache_after :: cache
  fetched :: "request list"

definition failure_result :: "string \<Rightarrow> detection_result" where
  "failure_result msg =
     \<lparr>is_toxic = False, confidence = 0, toxic_labels = [], scores = [], error = Some msg\<rparr>"

definition handleToxicityDetection ::
  "(request \<Rightarrow> detection_result fetch_result) \<Rightarrow> int \<Rightarrow> int \<Rightarrow> cache \<Rightarrow> string \<Rightarrow> detect_outcome"
where
  "handleToxicityDetection backend now_lookup now_store cache text =
     (let cacheKey = trim (toLowerCase text)
      in case lookup_fresh cache cacheKey now_lookup of
           Some cached \<Rightarrow> \<lparr>sent = [result cached], cache_after = cache, fetched = []\<rparr>
         | None \<Rightarrow>
             (case fetch_json backend (detect_request text) of
                Inr res \<Rightarrow>
                  \<lparr>sent = [res],
                   cache_after = cache(cacheKey \<mapsto> \<lparr>result = res, timestamp = now_store\<rparr>),
                   fetched = [detect_request text]\<rparr>
              | Inl msg \<Rightarrow>
                  \<lparr>sent = [failure_result msg], cache_after = cache,
                   fetched = [detect_request text]\<rparr>))"

text \<open>The periodic sweep: every entry older than the duration is deleted.\<close>

definition cleanup :: "int \<Rightarrow> cache \<Rightarrow> cache" where
  "cleanup now cache =
     (\<lambda>key. case cache key of
        None \<Rightarrow> None
      | Some entry \<Rightarrow> if now - timestamp entry > CACHE_DURATION then None else Some entry)"

section \<open>The service worker: detoxification\<close>

record detox_outcome =
  detox_sent :: "detox_result list"
  detox_fetched :: "request list"

definition handleTextDetoxification ::
  "(request \<Rightarrow> detox_result fetch_result) \<Rightarrow> string \<Rightarrow> detox_outcome"
where
  "handleTextDetoxification backend text =
     (case fetch_json backend (detoxify_request text) of
        Inr res \<Rightarrow> \<lparr>detox_sent = [res], detox_fetched = [detoxify_request text]\<rparr>
      | Inl msg \<Rightarrow>
          \<lparr>detox_sent = [\<lparr>detoxified_text = Some text, detox_error = Some msg\<rparr>],
           detox_fetched = [detoxify_request text]\<rparr>)"

section \<open>The settings\<close>



section \<open>The content script\<close>

text \<open>
  The properties of an input element that the monitor reads and writes; \<open>input_value\<close> is the
  \<open>value\<close> property. A property the element does not have reads as the empty string
  under the \<open>||\<close> chain of \<open>getTextContent\<close>.
\<close>

record element =
  contentEditable :: bool
  innerText :: string
  textContent :: string
  input_value :: string

definition or_else :: "string \<Rightarrow> string \<Rightarrow> string" where
  "or_else a b = (if a \<noteq> [] then a else b)"

definition getTextContent :: "element \<Rightarrow> string" where
  "getTextContent el =
     (if contentEditable el then or_else (innerText el) (or_else (textContent el) [])
      else or_else (input_value el) [])"

text \<open>
  \<open>setTextContent\<close> assigns \<open>innerText\<close> or \<open>value\<close>. Assigning \<open>innerText\<close> replaces the
  element's content, which \<open>textContent\<close> reads back as well. The \<open>input\<close> event it then
  dispatches is not followed here.
\<close>

definition setTextContent :: "element \<Rightarrow> string \<Rightarrow> element" where
  "setTextContent el text =
     (if contentEditable el then el\<lparr>innerText := text, textContent := text\<rparr>
      else el\<lparr>input_value := text\<rparr>)"

text \<open>
  \<open>handleInput\<close> either only removes the element's overlay, or (re)starts the element's
  500 ms debounce timer, which calls \<open>detectToxicity\<close> with the text read now.
\<close>

datatype input_step = RemoveOverlayOnly | DetectAfterDebounce string

definition handleInput :: "element \<Rightarrow> input_step" where
  "handleInput el =
     (let text = getTextContent el
      in if text = [] \<or> length text < 3 then RemoveOverlayOnly
         else DetectAfterDebounce text)"

text \<open>
  \<open>sendMessage\<close> wraps \<open>chrome.runtime.sendMessage\<close> in a promise: rejected with
  \<open>chrome.runtime.lastError\<close>, or resolved with what the service worker passed to
  \<open>sendResponse\<close>.
\<close>

datatype 'a reply = LastError string | Response 'a




text \<open>
  \<open>quickDetoxify\<close>: the element it leaves, and whether it announced a rewrite (the success
  message and the analytics entry).
\<close>

record quick_outcome =
  element_after :: element
  announced :: bool

definition quickDetoxify :: "string \<Rightarrow> element \<Rightarrow> detox_result reply \<Rightarrow> quick_outcome" where
  "quickDetoxify text el r =
     (case r of
        LastError err \<Rightarrow> \<lparr>element_after = el, announced = False\<rparr>
      | Response response \<Rightarrow>
          (case detoxified_text response of
             None \<Rightarrow> \<lparr>element_after = el, announced = False\<rparr>
           | Some detoxified \<Rightarrow>
               if detoxified \<noteq> [] \<and> detoxified \<noteq> text
               then \<lparr>element_after = setTextContent el detoxified, announced = True\<rparr>
               else \<lparr>element_after = el, announced = False\<rparr>))"

section \<open>The popup and the web page\<close>

text \<open>
  The popup's \<open>runToxicityTest\<close> trims the text area's content and either asks for text or
  sends a \<open>detectToxicity\<close> message with the trimmed text to the service worker.
\<close>

datatype popup_step = PleaseEnterTestText | SendDetectToxicity string

definition runToxicityTest :: "string \<Rightarrow> popup_step" where
  "runToxicityTest content =
     (let text = trim content
      in if text = [] then PleaseEnterTestText else SendDetectToxicity text)"



text \<open>
  The web page's \<open>checkToxicity\<close> (frontend/main.js) asks for text when the trimmed input is
  empty, and otherwise posts the input as typed.
\<close>

datatype page_step = PleaseEnterText | Post request

definition checkToxicity :: "string \<Rightarrow> page_step" where
  "checkToxicity text =
     (if trim text = [] then PleaseEnterText else Post (detect_request text))"

text \<open>
  The repository holds a second, older page script whose \<open>checkToxicity\<close> posts the input
  to port 5000 with no check at all.
\<close>

definition checkToxicity_old :: "string \<Rightarrow> page_step" where
  "checkToxicity_old text =
     Post \<lparr>url = ''http://localhost:5000/api/detect'', body_text = text\<rparr>"

section \<open>From an input to a request\<close>

text \<open>
  The requests to the backend that one event in a client leads to. In the content script
  the debounce timer, left to fire, calls \<open>detectToxicity\<close>, which sends the text in a
  \<open>detectToxicity\<close> message to the service worker, whose listener passes it to
  \<open>handleToxicityDetection\<close>; the popup's test sends the same message directly; the web
  page posts by itself.
\<close>

definition input_requests ::
  "(request \<Rightarrow> detection_result fetch_result) \<Rightarrow> int \<Rightarrow> int \<Rightarrow> cache \<Rightarrow> element \<Rightarrow> request list"
where
  "input_requests backend now_lookup now_store cache el =
     (case handleInput el of
        RemoveOverlayOnly \<Rightarrow> []
      | DetectAfterDebounce text \<Rightarrow>
          fetched (handleToxicityDetection backend now_lookup now_store cache text))"

definition test_requests ::
  "(request \<Rightarrow> detection_result fetch_result) \<Rightarrow> int \<Rightarrow> int \<Rightarrow> cache \<Rightarrow> string \<Rightarrow> request list"
where
  "test_requests backend now_lookup now_store cache content =
     (case runToxicityTest content of
        PleaseEnterTestText \<Rightarrow> []
      | SendDetectToxicity text \<Rightarrow>
          fetched (handleToxicityDetection backend now_lookup now_store cache text))"

definition page_requests :: "string \<Rightarrow> request list" where
  "page_requests text =
     (case checkToxicity text of PleaseEnterText \<Rightarrow> [] | Post req \<Rightarrow> [req])"


definition page_requests_old :: "string \<Rightarrow> request list" where
  "page_requests_old text =
     (case checkToxicity_old text of PleaseEnterText \<Rightarrow> [] | Post req \<Rightarrow> [req])"

section \<open>The service worker over time\<close>

text \<open>
  \<open>handleToxicityDetection\<close> is an \<open>async\<close> function: it reads the cache when the message
  arrives, then waits for the fetch and for the body, and only when they have settled does
  it write the cache and answer. While it waits, other messages are handled and the sweep
  may run. So a request takes part in two events: its arrival (the lookup, with the
  \<open>Date.now()\<close> of that moment) and, after a miss, the settling of its fetch (the store,
  with the \<open>Date.now()\<close> of that later moment). The worker's state is the cache and the
  requests that wait for their fetch, each known by a number and the text it carries.
\<close>

record worker =
  toxicityCache :: cache
  in_flight :: "(nat \<times> string) list"

datatype event =
  Arrive nat int string
| Settle nat "detection_result fetch_result" int
| Sweep int

text \<open>
  What an event does: the answers passed to \<open>sendResponse\<close> (with the request they answer),
  the requests posted to the backend, and the worker it leaves.
\<close>

record effect =
  answered :: "(nat \<times> detection_result) list"
  posted :: "request list"
  worker_after :: worker

fun perform :: "worker \<Rightarrow> event \<Rightarrow> effect" where
  "perform w (Arrive n now text) =
     (case lookup_fresh (toxicityCache w) (trim (toLowerCase text)) now of
        Some cached \<Rightarrow> \<lparr>answered = [(n, result cached)], posted = [], worker_after = w\<rparr>
      | None \<Rightarrow>
          \<lparr>answered = [], posted = [detect_request text],
           worker_after = w\<lparr>in_flight := (n, text) # in_flight w\<rparr>\<rparr>)"
| "perform w (Settle n fetch_outcome now) =
     (case map_of (in_flight w) n of
        None \<Rightarrow> \<lparr>answered = [], posted = [], worker_after = w\<rparr>
      | Some text \<Rightarrow>
          (case fetch_json (\<lambda>req. fetch_outcome) (detect_request text) of
             Inr res \<Rightarrow>
               \<lparr>answered = [(n, res)], posted = [],
                worker_after =
                  \<lparr>toxicityCache =
                     (toxicityCache w)(trim (toLowerCase text) \<mapsto>
                        \<lparr>result = res, timestamp = now\<rparr>),
                   in_flight = filter (\<lambda>p. fst p \<noteq> n) (in_flight w)\<rparr>\<rparr>
           | Inl msg \<Rightarrow>
               \<lparr>answered = [(n, failure_result msg)], posted = [],
                worker_after =
                  w\<lparr>in_flight := filter (\<lambda>p. fst p \<noteq> n) (in_flight w)\<rparr>\<rparr>))"
| "perform w (Sweep now) =
     \<lparr>answered = [], posted = [],
      worker_after = w\<lparr>toxicityCache := cleanup now (toxicityCache w)\<rparr>\<rparr>"

definition run_events :: "worker \<Rightarrow> event list \<Rightarrow> worker" where
  "run_events w events = foldl (\<lambda>v e. worker_after (perform v e)) w events"

text \<open>An event whose reading of the clock lies between two moments.\<close>

fun clock_between :: "int \<Rightarrow> int \<Rightarrow> event \<Rightarrow> bool" where
  "clock_between lo hi (Arrive n now text) = (lo \<le> now \<and> now \<le> hi)"
| "clock_between lo hi (Settle n fetch_outcome now) = (lo \<le> now \<and> now \<le> hi)"
| "clock_between lo hi (Sweep now) = (lo \<le> now \<and> now \<le> hi)"

text \<open>No request that waits for its fetch carries a text of the given key.\<close>

definition none_waiting :: "worker \<Rightarrow> string \<Rightarrow> bool" where
  "none_waiting w key =
     list_all (\<lambda>p. trim (toLowerCase (snd p)) \<noteq> key) (in_flight w)"

section \<open>The analysis pipeline, from the specification\<close>

text \<open>
  The pipeline (normalizer, aggregator) runs in the backend, whose code is not among the
  repository's sources. What follows is modelled from its specification and from the
  documented weights and thresholds.
\<close>




text \<open>
  Modelled from the spec: the boundary of the pipeline, missing from the sources. Empty
  input is rejected as \<open>InvalidInput\<close> before the pipeline is entered; any other text enters
  it. \<open>executed\<close> lists the stages that ran, the Normalizer first and the Aggregator last
  (the three between them may run side by side).
\<close>

datatype stage =
  Normalizer | SarcasmDetector | ContextualAnalyzer | BaseToxicityScorer | Aggregator

datatype pipeline_error = InvalidInput

record 'r detect_run =
  outcome :: "pipeline_error + 'r"
  executed :: "stage list"

definition detect :: "(string \<Rightarrow> 'r) \<Rightarrow> string \<Rightarrow> 'r detect_run" where
  "detect pipeline text =
     (if text = [] then \<lparr>outcome = Inl InvalidInput, executed = []\<rparr>
      else \<lparr>outcome = Inr (pipeline text),
            executed = [Normalizer, SarcasmDetector, ContextualAnalyzer, BaseToxicityScorer,
                        Aggregator]\<rparr>)"

text \<open>
  Modelled from the spec: the Aggregator's weights, missing from the sources. The fixed
  weights are 0.40, 0.35, 0.15 and 0.10; the weight \<open>fuse\<close> uses for a present component
  is its fixed weight divided by the total fixed weight of the present components, and an
  absent component has no vote.
\<close>

datatype component =
  BaseClassifier | ContextualAnalysis | SarcasmAdjustment | NormalizationBoost

fun weight :: "component \<Rightarrow> real" where
  "weight BaseClassifier = 0.40"
| "weight ContextualAnalysis = 0.35"
| "weight SarcasmAdjustment = 0.15"
| "weight NormalizationBoost = 0.10"

definition components :: "component list" where
  "components = [BaseClassifier, ContextualAnalysis, SarcasmAdjustment, NormalizationBoost]"

definition present_components :: "(component \<Rightarrow> bool) \<Rightarrow> component list" where
  "present_components available = filter available components"

definition present_weight :: "(component \<Rightarrow> bool) \<Rightarrow> real" where
  "present_weight available = sum_list (map weight (present_components available))"

definition used_weight :: "(component \<Rightarrow> bool) \<Rightarrow> component \<Rightarrow> real" where
  "used_weight available c =
     (if available c then weight c / present_weight available else 0)"

text \<open>
  Modelled from the spec: the Normalizer's repeated-character pass, missing from the
  sources. The text is cut into its maximal runs of one character; \<open>collapse(run) =
  run[0:2]\<close> for a run of length 3 or more, and a shorter run is unchanged.
\<close>

fun runs :: "'a list \<Rightarrow> 'a list list" where
  "runs [] = []"
| "runs (x # xs) =
     (case runs xs of
        (y # ys) # rest \<Rightarrow> if x = y then (x # y # ys) # rest else [x] # (y # ys) # rest
      | _ \<Rightarrow> [[x]])"

definition collapse_run :: "'a list \<Rightarrow> 'a list" where
  "collapse_run run = (if 3 \<le> length run then take 2 run else run)"

definition collapse :: "'a list \<Rightarrow> 'a list" where
  "collapse text = concat (map collapse_run (runs text))"

text \<open>
  What it is to be the maximal runs of a text: every run is a non-empty repetition of one
  character, and two neighbouring runs are of different characters.
\<close>

fun maximal_runs :: "'a list list \<Rightarrow> bool" where
  "maximal_runs [] = True"
| "maximal_runs ([] # rest) = False"
| "maximal_runs ((x # xs) # rest) =
     ((\<forall>y \<in> set xs. y = x)
      \<and> (case rest of (z # zs) # others \<Rightarrow> z \<noteq> x | _ \<Rightarrow> True)
      \<and> maximal_runs rest)"

section \<open>Evaluating the string operations\<close>

lemma decimal_503: "decimal 503 = ''503''"
  by (simp add: decimal.simps char_of_eq_iff)

lemma key_variants:
  "trim (toLowerCase ''You IDIOT'') = ''you idiot''"
  "trim (toLowerCase ''  you idiot '') = ''you idiot''"
  "trim (toLowerCase ''you idiot'') = ''you idiot''"
  by (simp_all add: trim_def toLowerCase_def lower_char_def is_upper_def is_whitespace_def
      char_of_eq_iff)

lemma cache_duration_ms: "CACHE_DURATION = 300000"
  by (simp add: CACHE_DURATION_def)

section \<open>The fetch and the detection handler, case by case\<close>

lemma fetch_json_network:
  "backend req = NetworkFailure msg \<Longrightarrow> fetch_json backend req = Inl msg"
  by (simp add: fetch_json_def)

lemma fetch_json_status:
  "backend req = Responded r \<Longrightarrow> \<not> ok r \<Longrightarrow>
   fetch_json backend req = Inl (''API error: '' @ decimal (status r))"
  by (simp add: fetch_json_def)

lemma fetch_json_invalid:
  "backend req = Responded r \<Longrightarrow> ok r \<Longrightarrow> body r = InvalidJson msg \<Longrightarrow>
   fetch_json backend req = Inl msg"
  by (simp add: fetch_json_def)

lemma fetch_json_success:
  "backend req = Responded r \<Longrightarrow> ok r \<Longrightarrow> body r = Json res \<Longrightarrow>
   fetch_json backend req = Inr res"
  by (simp add: fetch_json_def)

lemma fetch_json_failure:
  assumes "backend req = NetworkFailure msg
         \<or> (\<exists>r. backend req = Responded r \<and> \<not> ok r
                \<and> msg = ''API error: '' @ decimal (status r))
         \<or> (\<exists>r. backend req = Responded r \<and> ok r \<and> body r = InvalidJson msg)"
  shows "fetch_json backend req = Inl msg"
  using assms by (auto simp: fetch_json_network fetch_json_status fetch_json_invalid)

lemma handle_miss_failure:
  assumes "lookup_fresh cache (trim (toLowerCase text)) now_lookup = None"
      and "fetch_json backend (detect_request text) = Inl msg"
  shows "handleToxicityDetection backend now_lookup now_store cache text =
         \<lparr>sent = [failure_result msg], cache_after = cache, fetched = [detect_request text]\<rparr>"
  using assms by (simp add: handleToxicityDetection_def)

lemma handle_miss_success:
  assumes "lookup_fresh cache (trim (toLowerCase text)) now_lookup = None"
      and "fetch_json backend (detect_request text) = Inr res"
  shows "handleToxicityDetection backend now_lookup now_store cache text =
         \<lparr>sent = [res],
          cache_after =
            cache(trim (toLowerCase text) \<mapsto> \<lparr>result = res, timestamp = now_store\<rparr>),
          fetched = [detect_request text]\<rparr>"
  using assms by (simp add: handleToxicityDetection_def)

lemma fresh_entry_is_served:
  assumes "cache (trim (toLowerCase text)) = Some entry"
      and "now - timestamp entry < CACHE_DURATION"
  shows "handleToxicityDetection backend now now' cache text =
         \<lparr>sent = [result entry], cache_after = cache, fetched = []\<rparr>"
  using assms by (simp add: handleToxicityDetection_def lookup_fresh_def)

lemma cleanup_keeps_young:
  assumes "cache key = Some entry" and "now - timestamp entry \<le> CACHE_DURATION"
  shows "cleanup now cache key = Some entry"
  using assms by (simp add: cleanup_def)

lemma handle_sends_once:
  "length (sent (handleToxicityDetection backend now_lookup now_store cache text)) = 1"
  by (simp add: handleToxicityDetection_def Let_def split: option.split sum.split)

section \<open>Failure of the detection call\<close>

text \<open>
  Claim C1. Whatever the text, when the handler contacts the backend and the call fails (the
  fetch rejects, the status is not OK, or the body is not JSON), the caller is sent exactly
  one response: \<open>is_toxic = false\<close>, \<open>confidence = 0\<close>, no labels, no scores, and the
  failure's message under \<open>error\<close>; the cache is left as it was. In every case, failure or
  not, the handler ends having sent exactly one response, so no error leaves it.
\<close>

theorem detection_failure_is_answered:
  fixes backend :: "request \<Rightarrow> detection_result fetch_result"
  assumes contacted: "lookup_fresh cache (trim (toLowerCase text)) now_lookup = None"
      and fails:
        "backend (detect_request text) = NetworkFailure msg
         \<or> (\<exists>r. backend (detect_request text) = Responded r \<and> \<not> ok r
                \<and> msg = ''API error: '' @ decimal (status r))
         \<or> (\<exists>r. backend (detect_request text) = Responded r \<and> ok r
                \<and> body r = InvalidJson msg)"
  shows "handleToxicityDetection backend now_lookup now_store cache text =
           \<lparr>sent = [\<lparr>is_toxic = False, confidence = 0, toxic_labels = [], scores = [],
                     error = Some msg\<rparr>],
            cache_after = cache, fetched = [detect_request text]\<rparr>
         \<and> (\<forall>backend' t t' cache' text'.
               length (sent (handleToxicityDetection backend' t t' cache' text')) = 1)"
proof -
  from fails have "fetch_json backend (detect_request text) = Inl msg"
    by (rule fetch_json_failure)
  with contacted show ?thesis
    by (simp add: handle_miss_failure handle_sends_once failure_result_def)
qed

theorem detection_failure_is_answered_witness:
  "handleToxicityDetection
     (\<lambda>req. Responded \<lparr>status = 503, body = InvalidJson ''''\<rparr>) 1000 1200 Map.empty
     ''You are so stupid''
   = \<lparr>sent = [\<lparr>is_toxic = False, confidence = 0, toxic_labels = [], scores = [],
               error = Some ''API error: 503''\<rparr>],
      cache_after = Map.empty, fetched = [detect_request ''You are so stupid'']\<rparr>"
proof -
  let ?backend = "(\<lambda>req. Responded \<lparr>status = 503, body = InvalidJson ''''\<rparr>)
                    :: request \<Rightarrow> detection_result fetch_result"
  have miss: "lookup_fresh Map.empty (trim (toLowerCase ''You are so stupid'')) 1000 = None"
    by (simp add: lookup_fresh_def)
  have fails:
    "?backend (detect_request ''You are so stupid'') = NetworkFailure ''API error: 503''
     \<or> (\<exists>r. ?backend (detect_request ''You are so stupid'') = Responded r \<and> \<not> ok r
            \<and> ''API error: 503'' = ''API error: '' @ decimal (status r))
     \<or> (\<exists>r. ?backend (detect_request ''You are so stupid'') = Responded r \<and> ok r
            \<and> body r = InvalidJson ''API error: 503'')"
    by (simp add: ok_def decimal_503)
  from detection_failure_is_answered [OF miss fails, of 1200] show ?thesis
    by simp
qed

section \<open>The verdict threshold and the warning overlay\<close>









section \<open>Empty, blank and short input\<close>

lemma handleInput_removes:
  "handleInput el = RemoveOverlayOnly \<longleftrightarrow> length (getTextContent el) < 3"
  by (auto simp: handleInput_def Let_def)

lemma handleInput_detects:
  "handleInput el = DetectAfterDebounce text \<longleftrightarrow>
     3 \<le> length (getTextContent el) \<and> text = getTextContent el"
  by (auto simp: handleInput_def Let_def)

lemma runToxicityTest_asks:
  "runToxicityTest content = PleaseEnterTestText \<longleftrightarrow> trim content = []"
  by (simp add: runToxicityTest_def Let_def)

lemma checkToxicity_asks:
  "checkToxicity text = PleaseEnterText \<longleftrightarrow> trim text = []"
  by (simp add: checkToxicity_def)

lemma short_input_requests:
  "length (getTextContent el) < 3 \<Longrightarrow> input_requests backend t t' cache el = []"
  by (simp add: input_requests_def handleInput_def Let_def)

lemma long_input_requests:
  "3 \<le> length (getTextContent el) \<Longrightarrow>
   input_requests backend t t' cache el =
     fetched (handleToxicityDetection backend t t' cache (getTextContent el))"
  by (auto simp: input_requests_def handleInput_def Let_def)

lemma blank_test_requests:
  "trim content = [] \<Longrightarrow> test_requests backend t t' cache content = []"
  by (simp add: test_requests_def runToxicityTest_def)

lemma blank_page_requests:
  "trim text = [] \<Longrightarrow> page_requests text = []"
  by (simp add: page_requests_def checkToxicity_def)

text \<open>
  Claim C4, as the code has it. Empty input is rejected at the pipeline boundary as
  \<open>InvalidInput\<close> and never reaches any stage execution (the boundary is the backend's and is
  modelled from the specification). In the popup's test and the web page (main.js) an
  empty or whitespace-only input never triggers a detection request: both trim first and
  stop. In the content script an empty input, and any input shorter than 3 characters,
  never triggers one; but the content script does not trim, and for any input of 3
  characters or more, white space included, it schedules a detection that the service
  worker handles like any other. The older page script posts whatever it is given.
\<close>

theorem empty_input_guards:
  "outcome (detect pipeline []) = Inl InvalidInput
   \<and> executed (detect pipeline []) = []
   \<and> (getTextContent el = [] \<longrightarrow> input_requests backend t t' cache el = [])
   \<and> test_requests backend t t' cache [] = []
   \<and> page_requests [] = []
   \<and> (trim text = [] \<longrightarrow>
         runToxicityTest text = PleaseEnterTestText \<and> test_requests backend t t' cache text = []
         \<and> checkToxicity text = PleaseEnterText \<and> page_requests text = [])
   \<and> (length (getTextContent el) < 3 \<longrightarrow>
         handleInput el = RemoveOverlayOnly \<and> input_requests backend t t' cache el = [])
   \<and> (3 \<le> length (getTextContent el) \<longrightarrow>
         handleInput el = DetectAfterDebounce (getTextContent el)
         \<and> input_requests backend t t' cache el =
             fetched (handleToxicityDetection backend t t' cache (getTextContent el)))
   \<and> checkToxicity_old text
       = Post \<lparr>url = ''http://localhost:5000/api/detect'', body_text = text\<rparr>"
proof -
  have "trim [] = []"
    by (simp add: trim_def)
  then have "test_requests backend t t' cache [] = []" and "page_requests [] = []"
    by (simp_all add: blank_test_requests blank_page_requests)
  then show ?thesis
    by (simp add: detect_def handleInput_removes handleInput_detects runToxicityTest_asks
        checkToxicity_asks short_input_requests long_input_requests blank_test_requests
        blank_page_requests checkToxicity_old_def)
qed

theorem empty_input_guards_witness:
  "outcome (detect length []) = Inl InvalidInput
   \<and> executed (detect length []) = []
   \<and> getTextContent \<lparr>contentEditable = True, innerText = [], textContent = [], input_value = []\<rparr>
     = []
   \<and> input_requests (\<lambda>req. NetworkFailure ''Failed to fetch'') 0 0 Map.empty
        \<lparr>contentEditable = True, innerText = [], textContent = [], input_value = []\<rparr>
       = []
   \<and> trim '' '' = []
   \<and> test_requests (\<lambda>req. NetworkFailure ''Failed to fetch'') 0 0 Map.empty '' '' = []
   \<and> page_requests '' '' = []
   \<and> (3::nat) \<le> length (getTextContent
         \<lparr>contentEditable = True, innerText = ''you idiot'', textContent = ''you idiot'',
          input_value = []\<rparr>)
   \<and> handleInput
         \<lparr>contentEditable = True, innerText = ''you idiot'', textContent = ''you idiot'',
          input_value = []\<rparr>
       = DetectAfterDebounce ''you idiot''"
proof -
  let ?empty = "\<lparr>contentEditable = True, innerText = [], textContent = [], input_value = []\<rparr>"
  let ?typed = "\<lparr>contentEditable = True, innerText = ''you idiot'',
                 textContent = ''you idiot'', input_value = []\<rparr>"
  have e: "getTextContent ?empty = []"
    by (simp add: getTextContent_def or_else_def)
  have t: "trim '' '' = []"
    by (simp add: trim_def is_whitespace_def)
  have l: "getTextContent ?typed = ''you idiot''"
    by (simp add: getTextContent_def or_else_def)
  from empty_input_guards
         [of length ?empty "\<lambda>req. NetworkFailure ''Failed to fetch''" 0 0 Map.empty "'' ''"]
       empty_input_guards
         [of length ?typed "\<lambda>req. NetworkFailure ''Failed to fetch''" 0 0 Map.empty "'' ''"]
       e t l
  show ?thesis
    by simp
qed

text \<open>
  Three spaces typed into a monitored text field: blank, yet the content script schedules a
  detection for it, and the service worker, finding nothing cached, posts it to the
  backend. And the older page script posts the empty text itself.
\<close>

theorem whitespace_input_counterexample:
  "trim ''   '' = []
   \<and> handleInput \<lparr>contentEditable = False, innerText = [], textContent = [],
                   input_value = ''   ''\<rparr>
       = DetectAfterDebounce ''   ''
   \<and> input_requests (\<lambda>req. NetworkFailure ''Failed to fetch'') 0 0 Map.empty
        \<lparr>contentEditable = False, innerText = [], textContent = [], input_value = ''   ''\<rparr>
       = [\<lparr>url = ''http://localhost:8000/api/detect'', body_text = ''   ''\<rparr>]
   \<and> page_requests_old [] = [\<lparr>url = ''http://localhost:5000/api/detect'', body_text = []\<rparr>]"
  by (simp add: trim_def is_whitespace_def input_requests_def handleInput_def
      page_requests_old_def checkToxicity_old_def
      getTextContent_def or_else_def handleToxicityDetection_def lookup_fresh_def
      fetch_json_def toLowerCase_def lower_char_def is_upper_def detect_request_def
      API_BASE_URL_def Let_def)

section \<open>The cache key forgets case and surrounding white space\<close>

text \<open>An arrival and the settling of its fetch with nothing in between is the handler run whole.\<close>

lemma uninterrupted_hit:
  assumes "lookup_fresh (toxicityCache w) (trim (toLowerCase text)) now = Some cached"
  shows "map snd (answered (perform w (Arrive n now text)))
           = sent (handleToxicityDetection (\<lambda>req. fetch_outcome) now now' (toxicityCache w) text)
         \<and> posted (perform w (Arrive n now text))
           = fetched (handleToxicityDetection (\<lambda>req. fetch_outcome) now now' (toxicityCache w) text)
         \<and> toxicityCache (worker_after (perform w (Arrive n now text)))
           = cache_after (handleToxicityDetection (\<lambda>req. fetch_outcome) now now' (toxicityCache w) text)"
  using assms by (simp add: handleToxicityDetection_def)

lemma uninterrupted_miss:
  assumes "lookup_fresh (toxicityCache w) (trim (toLowerCase text)) now = None"
  shows "map snd (answered (perform (worker_after (perform w (Arrive n now text)))
                     (Settle n fetch_outcome now')))
           = sent (handleToxicityDetection (\<lambda>req. fetch_outcome) now now' (toxicityCache w) text)
         \<and> posted (perform w (Arrive n now text))
           = fetched (handleToxicityDetection (\<lambda>req. fetch_outcome) now now' (toxicityCache w) text)
         \<and> toxicityCache (worker_after (perform (worker_after (perform w (Arrive n now text)))
                     (Settle n fetch_outcome now')))
           = cache_after (handleToxicityDetection (\<lambda>req. fetch_outcome) now now' (toxicityCache w) text)"
  using assms by (simp add: handleToxicityDetection_def split: sum.split)

text \<open>
  An entry stored no earlier than a moment \<open>lo\<close> is still there, or replaced by a later one,
  after any event that reads the clock less than five minutes after \<open>lo\<close>: the sweep finds
  it young, an arrival does not write, and a settling writes a later entry.
\<close>

lemma perform_keeps_young_entry:
  assumes entry: "toxicityCache w key = Some entry"
      and young: "lo \<le> timestamp entry"
      and window: "hi - lo < CACHE_DURATION"
      and clock: "clock_between lo hi e"
  shows "\<exists>entry'. toxicityCache (worker_after (perform w e)) key = Some entry'
           \<and> lo \<le> timestamp entry'"
proof (cases e)
  case (Arrive n now input)
  then show ?thesis using entry young
    by (simp split: option.split)
next
  case (Settle n fetch_outcome now)
  then show ?thesis using entry young clock
    by (simp split: option.split sum.split)
next
  case (Sweep now)
  have "now - timestamp entry \<le> CACHE_DURATION"
    using young window clock Sweep by simp
  then show ?thesis using Sweep entry young
    by (simp add: cleanup_keeps_young)
qed

lemma run_keeps_young_entry:
  assumes "toxicityCache w key = Some entry"
      and "lo \<le> timestamp entry"
      and "hi - lo < CACHE_DURATION"
      and "\<forall>e \<in> set events. clock_between lo hi e"
  shows "\<exists>entry'. toxicityCache (run_events w events) key = Some entry'
           \<and> lo \<le> timestamp entry'"
  using assms unfolding run_events_def
proof (induction events arbitrary: w entry)
  case Nil
  then show ?case by simp
next
  case (Cons e events)
  have "clock_between lo hi e"
    using Cons.prems by simp
  with Cons.prems obtain entry' where
    "toxicityCache (worker_after (perform w e)) key = Some entry'" "lo \<le> timestamp entry'"
    using perform_keeps_young_entry [of w key entry lo hi e] by auto
  then show ?case
    using Cons.prems Cons.IH [of "worker_after (perform w e)" entry'] by simp
qed

lemma arrive_young_entry:
  assumes "toxicityCache w (trim (toLowerCase text)) = Some entry"
      and "lo \<le> timestamp entry"
      and "now - lo < CACHE_DURATION"
  shows "perform w (Arrive n now text)
         = \<lparr>answered = [(n, result entry)], posted = [], worker_after = w\<rparr>"
  using assms by (simp add: lookup_fresh_def)

text \<open>
  When no waiting request carries a text of the key, the entry itself stays: a request of
  the key that arrives is answered from it and writes nothing.
\<close>

lemma perform_keeps_entry:
  assumes entry: "toxicityCache w key = Some entry"
      and stamp: "timestamp entry = lo"
      and window: "hi - lo < CACHE_DURATION"
      and clock: "clock_between lo hi e"
      and alone: "none_waiting w key"
  shows "toxicityCache (worker_after (perform w e)) key = Some entry
         \<and> none_waiting (worker_after (perform w e)) key"
proof (cases e)
  case (Arrive n now input)
  show ?thesis
  proof (cases "trim (toLowerCase input) = key")
    case True
    have "now - lo < CACHE_DURATION"
      using window clock Arrive by simp
    then have "perform w (Arrive n now input)
         = \<lparr>answered = [(n, result entry)], posted = [], worker_after = w\<rparr>"
      using entry stamp True by (intro arrive_young_entry [where lo = lo]) simp_all
    then show ?thesis using Arrive entry alone by simp
  next
    case False
    then show ?thesis using Arrive entry alone
      by (simp add: none_waiting_def split: option.split)
  qed
next
  case (Settle n fetch_outcome now)
  show ?thesis
  proof (cases "map_of (in_flight w) n")
    case None
    then show ?thesis using Settle entry alone by simp
  next
    case (Some input)
    then have "(n, input) \<in> set (in_flight w)"
      by (rule map_of_SomeD)
    then have other: "trim (toLowerCase input) \<noteq> key"
      using alone by (auto simp: none_waiting_def list_all_iff)
    then show ?thesis using Settle Some entry alone
      by (auto simp: none_waiting_def list_all_iff split: sum.split)
  qed
next
  case (Sweep now)
  have "now - timestamp entry \<le> CACHE_DURATION"
    using stamp window clock Sweep by simp
  then show ?thesis using Sweep entry alone
    by (simp add: cleanup_keeps_young none_waiting_def)
qed

lemma run_keeps_entry:
  assumes "toxicityCache w key = Some entry"
      and "timestamp entry = lo"
      and "hi - lo < CACHE_DURATION"
      and "\<forall>e \<in> set events. clock_between lo hi e"
      and "none_waiting w key"
  shows "toxicityCache (run_events w events) key = Some entry"
  using assms unfolding run_events_def
proof (induction events arbitrary: w)
  case Nil
  then show ?case by simp
next
  case (Cons e events)
  have "clock_between lo hi e"
    using Cons.prems by simp
  with Cons.prems have
    "toxicityCache (worker_after (perform w e)) key = Some entry
     \<and> none_waiting (worker_after (perform w e)) key"
    by (intro perform_keeps_entry [where lo = lo and hi = hi]) simp_all
  then show ?case
    using Cons.prems Cons.IH [of "worker_after (perform w e)"] by simp
qed

lemma settle_stores:
  assumes waits: "map_of (in_flight w) n = Some text"
      and answer: "fetch_outcome = Responded r" "ok r" "body r = Json res"
  shows "perform w (Settle n fetch_outcome stored)
         = \<lparr>answered = [(n, res)], posted = [],
            worker_after =
              \<lparr>toxicityCache =
                 (toxicityCache w)(trim (toLowerCase text) \<mapsto>
                    \<lparr>result = res, timestamp = stored\<rparr>),
               in_flight = filter (\<lambda>p. fst p \<noteq> n) (in_flight w)\<rparr>\<rparr>"
proof -
  have "fetch_json (\<lambda>req. fetch_outcome) (detect_request text) = Inr res"
    using answer by (intro fetch_json_success) simp_all
  with waits show ?thesis by simp
qed


lemma more_key_variants:
  "trim (toLowerCase ''YOU IDIOT'') = ''you idiot''"
  "trim (toLowerCase ''nice day'') = ''nice day''"
  by (simp_all add: trim_def toLowerCase_def lower_char_def is_upper_def is_whitespace_def
      char_of_eq_iff)

text \<open>
  Claim C9, as the code has it. Take two texts that are equal after lowercasing and
  trimming, and a first request, waiting for its fetch, whose fetch settles with a result:
  the handler answers with it and stores it under the key at that moment. If the second
  request arrives less than five minutes after that storing, then, whatever arrivals,
  settlings and sweeps the service worker went through in between, the second request is
  answered from the cache and the backend is not contacted. The answer is the result
  stored under the key at that time. It is the first request's result when no other
  request of the same key was waiting for its fetch at the moment the first one stored;
  such a request, settling later, overwrites the entry with its own result. The five
  minutes run from the storing: a request answered from the cache does not renew the
  entry, and a first request whose call failed stores nothing.
\<close>

theorem cached_result_for_equal_keys:
  assumes same_key: "trim (toLowerCase text1) = trim (toLowerCase text2)"
      and first_waits: "map_of (in_flight w) n1 = Some text1"
      and first_answer: "fetch_outcome = Responded r" "ok r" "body r = Json res"
      and within: "now2 - stored1 < CACHE_DURATION"
      and between: "\<forall>e \<in> set events. clock_between stored1 now2 e"
  shows "answered (perform w (Settle n1 fetch_outcome stored1)) = [(n1, res)]
         \<and> (\<exists>entry.
               toxicityCache
                 (run_events (worker_after (perform w (Settle n1 fetch_outcome stored1))) events)
                 (trim (toLowerCase text2)) = Some entry
               \<and> perform
                    (run_events (worker_after (perform w (Settle n1 fetch_outcome stored1))) events)
                    (Arrive n2 now2 text2)
                  = \<lparr>answered = [(n2, result entry)], posted = [],
                     worker_after =
                       run_events (worker_after (perform w (Settle n1 fetch_outcome stored1)))
                         events\<rparr>)
         \<and> (list_all (\<lambda>p. fst p = n1 \<or> trim (toLowerCase (snd p)) \<noteq> trim (toLowerCase text1))
               (in_flight w) \<longrightarrow>
             perform
               (run_events (worker_after (perform w (Settle n1 fetch_outcome stored1))) events)
               (Arrive n2 now2 text2)
             = \<lparr>answered = [(n2, res)], posted = [],
                worker_after =
                  run_events (worker_after (perform w (Settle n1 fetch_outcome stored1)))
                    events\<rparr>)"
proof -
  let ?key = "trim (toLowerCase text2)"
  let ?entry = "\<lparr>result = res, timestamp = stored1\<rparr>"
  let ?w1 = "worker_after (perform w (Settle n1 fetch_outcome stored1))"
  have settled: "perform w (Settle n1 fetch_outcome stored1)
         = \<lparr>answered = [(n1, res)], posted = [],
            worker_after =
              \<lparr>toxicityCache = (toxicityCache w)(trim (toLowerCase text1) \<mapsto> ?entry),
               in_flight = filter (\<lambda>p. fst p \<noteq> n1) (in_flight w)\<rparr>\<rparr>"
    using first_waits first_answer by (rule settle_stores)
  have stored: "toxicityCache ?w1 ?key = Some ?entry"
    using settled same_key by simp
  have first: "answered (perform w (Settle n1 fetch_outcome stored1)) = [(n1, res)]"
    using settled by simp
  obtain entry where entry:
    "toxicityCache (run_events ?w1 events) ?key = Some entry" "stored1 \<le> timestamp entry"
    using run_keeps_young_entry [of ?w1 ?key ?entry stored1 now2 events] stored within between
    by auto
  have served: "perform (run_events ?w1 events) (Arrive n2 now2 text2)
      = \<lparr>answered = [(n2, result entry)], posted = [], worker_after = run_events ?w1 events\<rparr>"
    using entry within by (intro arrive_young_entry [where lo = stored1]) simp_all
  have alone: "perform (run_events ?w1 events) (Arrive n2 now2 text2)
      = \<lparr>answered = [(n2, res)], posted = [], worker_after = run_events ?w1 events\<rparr>"
    if others: "list_all (\<lambda>p. fst p = n1
                  \<or> trim (toLowerCase (snd p)) \<noteq> trim (toLowerCase text1)) (in_flight w)"
  proof -
    have "none_waiting ?w1 ?key"
      using others settled same_key by (auto simp: none_waiting_def list_all_iff)
    then have "toxicityCache (run_events ?w1 events) ?key = Some ?entry"
      using stored within between
      by (intro run_keeps_entry [where lo = stored1 and hi = now2]) simp_all
    then have "perform (run_events ?w1 events) (Arrive n2 now2 text2)
      = \<lparr>answered = [(n2, result ?entry)], posted = [], worker_after = run_events ?w1 events\<rparr>"
      using within by (intro arrive_young_entry [where lo = stored1]) simp_all
    then show ?thesis by simp
  qed
  from first entry(1) served alone show ?thesis
    by blast
qed

text \<open>
  The first request, for \<open>You IDIOT\<close>, settles at 1200 while a request for another text
  waits. A sweep, the settling of the other request and a third request of the same key
  follow; the request for \<open>  you idiot \<close> at 200000 is answered with the first result.
\<close>

theorem cached_result_for_equal_keys_witness:
  "trim (toLowerCase ''You IDIOT'') = trim (toLowerCase ''  you idiot '')
   \<and> (200000::int) - 1200 < CACHE_DURATION
   \<and> clock_between 1200 200000 (Sweep 150000)
   \<and> clock_between 1200 200000
        (Settle 2 (Responded \<lparr>status = 200,
           body = Json \<lparr>is_toxic = False, confidence = 0.1, toxic_labels = [], scores = [],
                        error = None\<rparr>\<rparr>) 160000)
   \<and> clock_between 1200 200000 (Arrive 3 170000 ''YOU IDIOT'')
   \<and> perform
        (run_events
          (worker_after
            (perform
              \<lparr>toxicityCache = Map.empty, in_flight = [(2, ''nice day''), (1, ''You IDIOT'')]\<rparr>
              (Settle 1 (Responded \<lparr>status = 200,
                 body = Json \<lparr>is_toxic = True, confidence = 0.9, toxic_labels = [''insult''],
                              scores = [(''insult'', 0.9)], error = None\<rparr>\<rparr>) 1200)))
          [Sweep 150000,
           Settle 2 (Responded \<lparr>status = 200,
             body = Json \<lparr>is_toxic = False, confidence = 0.1, toxic_labels = [], scores = [],
                          error = None\<rparr>\<rparr>) 160000,
           Arrive 3 170000 ''YOU IDIOT''])
        (Arrive 4 200000 ''  you idiot '')
     = \<lparr>answered = [(4, \<lparr>is_toxic = True, confidence = 0.9, toxic_labels = [''insult''],
                          scores = [(''insult'', 0.9)], error = None\<rparr>)],
        posted = [],
        worker_after =
          run_events
            (worker_after
              (perform
                \<lparr>toxicityCache = Map.empty,
                 in_flight = [(2, ''nice day''), (1, ''You IDIOT'')]\<rparr>
                (Settle 1 (Responded \<lparr>status = 200,
                   body = Json \<lparr>is_toxic = True, confidence = 0.9, toxic_labels = [''insult''],
                                scores = [(''insult'', 0.9)], error = None\<rparr>\<rparr>) 1200)))
            [Sweep 150000,
             Settle 2 (Responded \<lparr>status = 200,
               body = Json \<lparr>is_toxic = False, confidence = 0.1, toxic_labels = [], scores = [],
                            error = None\<rparr>\<rparr>) 160000,
             Arrive 3 170000 ''YOU IDIOT'']\<rparr>"
proof -
  let ?res = "\<lparr>is_toxic = True, confidence = 0.9, toxic_labels = [''insult''],
                scores = [(''insult'', 0.9)], error = None\<rparr>"
  let ?r = "\<lparr>status = 200, body = Json ?res\<rparr>"
  let ?w = "\<lparr>toxicityCache = Map.empty, in_flight = [(2, ''nice day''), (1, ''You IDIOT'')]\<rparr>"
  let ?events = "[Sweep 150000,
     Settle 2 (Responded \<lparr>status = 200,
       body = Json \<lparr>is_toxic = False, confidence = 0.1, toxic_labels = [], scores = [],
                    error = None\<rparr>\<rparr>) 160000,
     Arrive 3 170000 ''YOU IDIOT'']"
  have same: "trim (toLowerCase ''You IDIOT'') = trim (toLowerCase ''  you idiot '')"
    by (simp add: key_variants)
  have waits: "map_of (in_flight ?w) 1 = Some ''You IDIOT''"
    by simp
  have answer: "Responded ?r = Responded ?r" "ok ?r" "body ?r = Json ?res"
    by (simp_all add: ok_def)
  have within: "(200000::int) - 1200 < CACHE_DURATION"
    by (simp add: cache_duration_ms)
  have between: "\<forall>e \<in> set ?events. clock_between 1200 200000 e"
    by simp
  have alone: "list_all (\<lambda>p. fst p = 1
      \<or> trim (toLowerCase (snd p)) \<noteq> trim (toLowerCase ''You IDIOT'')) (in_flight ?w)"
    by (simp add: key_variants more_key_variants)
  from cached_result_for_equal_keys [OF same waits answer within between, of 4] alone
  show ?thesis
    using same within by simp
qed

text \<open>
  Three ways the claim fails as stated. An entry stored at 0 answers a request at 240000,
  which completes at once; a request of the same key at 360000, two minutes after that
  completion, finds the entry expired and contacts the backend. A first request whose
  call failed stores nothing, and the second request, one second later, contacts the
  backend. And when two requests of the same key both missed the cache before either
  stored, the first stores its result at 100, the other overwrites it at 200, and a request
  at 1000 is answered with the result of the other, not of the first.
\<close>

theorem cache_window_counterexample:
  "trim (toLowerCase ''You IDIOT'') = trim (toLowerCase ''you idiot'')
   \<and> handleToxicityDetection (\<lambda>req. NetworkFailure ''Failed to fetch'') 240000 240000
        [''you idiot'' \<mapsto>
           \<lparr>result = \<lparr>is_toxic = True, confidence = 0.9, toxic_labels = [''insult''],
                       scores = [(''insult'', 0.9)], error = None\<rparr>,
            timestamp = 0\<rparr>]
        ''You IDIOT''
     = \<lparr>sent = [\<lparr>is_toxic = True, confidence = 0.9, toxic_labels = [''insult''],
                 scores = [(''insult'', 0.9)], error = None\<rparr>],
        cache_after =
          [''you idiot'' \<mapsto>
             \<lparr>result = \<lparr>is_toxic = True, confidence = 0.9, toxic_labels = [''insult''],
                         scores = [(''insult'', 0.9)], error = None\<rparr>,
              timestamp = 0\<rparr>],
        fetched = []\<rparr>
   \<and> (360000::int) - 240000 < CACHE_DURATION
   \<and> fetched
        (handleToxicityDetection (\<lambda>req. NetworkFailure ''Failed to fetch'') 360000 360000
           [''you idiot'' \<mapsto>
              \<lparr>result = \<lparr>is_toxic = True, confidence = 0.9, toxic_labels = [''insult''],
                          scores = [(''insult'', 0.9)], error = None\<rparr>,
               timestamp = 0\<rparr>]
           ''you idiot'')
     = [detect_request ''you idiot'']
   \<and> sent
        (handleToxicityDetection (\<lambda>req. NetworkFailure ''Failed to fetch'') 360000 360000
           [''you idiot'' \<mapsto>
              \<lparr>result = \<lparr>is_toxic = True, confidence = 0.9, toxic_labels = [''insult''],
                          scores = [(''insult'', 0.9)], error = None\<rparr>,
               timestamp = 0\<rparr>]
           ''you idiot'')
     = [\<lparr>is_toxic = False, confidence = 0, toxic_labels = [], scores = [],
          error = Some ''Failed to fetch''\<rparr>]
   \<and> (1000::int) - 0 < CACHE_DURATION
   \<and> fetched
        (handleToxicityDetection
           (\<lambda>req. Responded \<lparr>status = 200,
              body = Json \<lparr>is_toxic = True, confidence = 0.9, toxic_labels = [''insult''],
                           scores = [(''insult'', 0.9)], error = None\<rparr>\<rparr>)
           1000 1000
           (cache_after
              (handleToxicityDetection (\<lambda>req. NetworkFailure ''Failed to fetch'') 0 0
                 Map.empty ''You IDIOT''))
           ''you idiot'')
     = [detect_request ''you idiot'']
   \<and> answered
        (perform
           \<lparr>toxicityCache = Map.empty, in_flight = [(2, ''you idiot''), (1, ''You IDIOT'')]\<rparr>
           (Settle 1 (Responded \<lparr>status = 200,
              body = Json \<lparr>is_toxic = True, confidence = 0.9, toxic_labels = [''insult''],
                           scores = [(''insult'', 0.9)], error = None\<rparr>\<rparr>) 100))
     = [(1, \<lparr>is_toxic = True, confidence = 0.9, toxic_labels = [''insult''],
              scores = [(''insult'', 0.9)], error = None\<rparr>)]
   \<and> (1000::int) - 100 < CACHE_DURATION
   \<and> perform
        (run_events
           \<lparr>toxicityCache = Map.empty, in_flight = [(2, ''you idiot''), (1, ''You IDIOT'')]\<rparr>
           [Settle 1 (Responded \<lparr>status = 200,
              body = Json \<lparr>is_toxic = True, confidence = 0.9, toxic_labels = [''insult''],
                           scores = [(''insult'', 0.9)], error = None\<rparr>\<rparr>) 100,
            Settle 2 (Responded \<lparr>status = 200,
              body = Json \<lparr>is_toxic = False, confidence = 0.4, toxic_labels = [],
                           scores = [(''insult'', 0.4)], error = None\<rparr>\<rparr>) 200])
        (Arrive 3 1000 ''  you idiot '')
     = \<lparr>answered = [(3, \<lparr>is_toxic = False, confidence = 0.4, toxic_labels = [],
                          scores = [(''insult'', 0.4)], error = None\<rparr>)],
        posted = [],
        worker_after =
          \<lparr>toxicityCache =
             [''you idiot'' \<mapsto>
                \<lparr>result = \<lparr>is_toxic = False, confidence = 0.4, toxic_labels = [],
                            scores = [(''insult'', 0.4)], error = None\<rparr>,
                 timestamp = 200\<rparr>],
           in_flight = []\<rparr>\<rparr>"
  by (simp add: key_variants cache_duration_ms handleToxicityDetection_def lookup_fresh_def
      fetch_json_def failure_result_def ok_def run_events_def Let_def)

section \<open>Detoxification leaves the text alone on failure\<close>

lemma quickDetoxify_changes:
  assumes "element_after (quickDetoxify text el r) \<noteq> el"
  shows "\<exists>response detoxified. r = Response response
           \<and> detoxified_text response = Some detoxified
           \<and> detoxified \<noteq> [] \<and> detoxified \<noteq> text
           \<and> quickDetoxify text el r
               = \<lparr>element_after = setTextContent el detoxified, announced = True\<rparr>"
  using assms by (auto simp: quickDetoxify_def split: reply.splits option.splits if_splits)

text \<open>
  Claim C10. When the detoxify call fails (the fetch rejects, the status is not OK, or the
  body is not JSON), \<open>handleTextDetoxification\<close> answers with the input text, unmodified,
  as \<open>detoxified_text\<close>, and the failure's message as \<open>error\<close>. Given a reply whose
  \<open>detoxified_text\<close> is the original text (that failure answer, or an identical output of
  the backend), or no reply at all, \<open>quickDetoxify\<close> leaves the element as it is. Whenever
  \<open>quickDetoxify\<close> does change the element, the reply held a non-empty
  \<open>detoxified_text\<close> different from the original text, and the element was rewritten with
  it.
\<close>

theorem detoxification_keeps_text:
  fixes backend :: "request \<Rightarrow> detox_result fetch_result"
  assumes fails:
        "backend (detoxify_request original) = NetworkFailure msg
         \<or> (\<exists>r. backend (detoxify_request original) = Responded r \<and> \<not> ok r
                \<and> msg = ''API error: '' @ decimal (status r))
         \<or> (\<exists>r. backend (detoxify_request original) = Responded r \<and> ok r
                \<and> body r = InvalidJson msg)"
  shows "handleTextDetoxification backend original =
           \<lparr>detox_sent = [\<lparr>detoxified_text = Some original, detox_error = Some msg\<rparr>],
            detox_fetched = [detoxify_request original]\<rparr>
         \<and> quickDetoxify original el
               (Response \<lparr>detoxified_text = Some original, detox_error = reported\<rparr>)
             = \<lparr>element_after = el, announced = False\<rparr>
         \<and> quickDetoxify original el (LastError err)
             = \<lparr>element_after = el, announced = False\<rparr>
         \<and> (\<forall>t e r. element_after (quickDetoxify t e r) \<noteq> e \<longrightarrow>
               (\<exists>response detoxified. r = Response response
                  \<and> detoxified_text response = Some detoxified
                  \<and> detoxified \<noteq> [] \<and> detoxified \<noteq> t
                  \<and> quickDetoxify t e r
                      = \<lparr>element_after = setTextContent e detoxified, announced = True\<rparr>))"
proof -
  have "fetch_json backend (detoxify_request original) = Inl msg"
    using fails by (rule fetch_json_failure)
  then have "handleTextDetoxification backend original =
           \<lparr>detox_sent = [\<lparr>detoxified_text = Some original, detox_error = Some msg\<rparr>],
            detox_fetched = [detoxify_request original]\<rparr>"
    by (simp add: handleTextDetoxification_def)
  moreover have "quickDetoxify original el
               (Response \<lparr>detoxified_text = Some original, detox_error = reported\<rparr>)
             = \<lparr>element_after = el, announced = False\<rparr>"
    by (simp add: quickDetoxify_def)
  moreover have "quickDetoxify original el (LastError err)
             = \<lparr>element_after = el, announced = False\<rparr>"
    by (simp add: quickDetoxify_def)
  ultimately show ?thesis
    using quickDetoxify_changes by blast
qed

theorem detoxification_keeps_text_witness:
  "handleTextDetoxification (\<lambda>req. NetworkFailure ''Failed to fetch'') ''you are an idiot''
     = \<lparr>detox_sent = [\<lparr>detoxified_text = Some ''you are an idiot'',
                        detox_error = Some ''Failed to fetch''\<rparr>],
        detox_fetched = [detoxify_request ''you are an idiot'']\<rparr>
   \<and> quickDetoxify ''you are an idiot''
         \<lparr>contentEditable = False, innerText = [], textContent = [],
          input_value = ''you are an idiot''\<rparr>
         (Response \<lparr>detoxified_text = Some ''you are an idiot'',
                    detox_error = Some ''Failed to fetch''\<rparr>)
       = \<lparr>element_after =
            \<lparr>contentEditable = False, innerText = [], textContent = [],
             input_value = ''you are an idiot''\<rparr>,
          announced = False\<rparr>
   \<and> element_after
         (quickDetoxify ''you are an idiot''
            \<lparr>contentEditable = False, innerText = [], textContent = [],
             input_value = ''you are an idiot''\<rparr>
            (Response \<lparr>detoxified_text = Some ''you are mistaken'', detox_error = None\<rparr>))
       \<noteq> \<lparr>contentEditable = False, innerText = [], textContent = [],
            input_value = ''you are an idiot''\<rparr>
   \<and> quickDetoxify ''you are an idiot''
         \<lparr>contentEditable = False, innerText = [], textContent = [],
          input_value = ''you are an idiot''\<rparr>
         (Response \<lparr>detoxified_text = Some ''you are mistaken'', detox_error = None\<rparr>)
       = \<lparr>element_after =
            \<lparr>contentEditable = False, innerText = [], textContent = [],
             input_value = ''you are mistaken''\<rparr>,
          announced = True\<rparr>"
proof -
  let ?backend = "(\<lambda>req. NetworkFailure ''Failed to fetch'')
                    :: request \<Rightarrow> detox_result fetch_result"
  let ?original = "''you are an idiot''"
  let ?el = "\<lparr>contentEditable = False, innerText = [], textContent = [],
              input_value = ''you are an idiot''\<rparr>"
  let ?r = "Response \<lparr>detoxified_text = Some ''you are mistaken'', detox_error = None\<rparr>"
  have fails:
    "?backend (detoxify_request ?original) = NetworkFailure ''Failed to fetch''
     \<or> (\<exists>r. ?backend (detoxify_request ?original) = Responded r \<and> \<not> ok r
            \<and> ''Failed to fetch'' = ''API error: '' @ decimal (status r))
     \<or> (\<exists>r. ?backend (detoxify_request ?original) = Responded r \<and> ok r
            \<and> body r = InvalidJson ''Failed to fetch'')"
    by simp
  have changed: "element_after (quickDetoxify ?original ?el ?r) \<noteq> ?el"
    by (simp add: quickDetoxify_def setTextContent_def)
  note known = detoxification_keeps_text
         [where backend = ?backend and original = ?original and msg = "''Failed to fetch''"
            and el = ?el and err = "''x''" and reported = "Some ''Failed to fetch''",
          OF fails]
  from known have only_when:
    "\<forall>t e r. element_after (quickDetoxify t e r) \<noteq> e \<longrightarrow>
       (\<exists>response detoxified. r = Response response
          \<and> detoxified_text response = Some detoxified
          \<and> detoxified \<noteq> [] \<and> detoxified \<noteq> t
          \<and> quickDetoxify t e r
              = \<lparr>element_after = setTextContent e detoxified, announced = True\<rparr>)"
    by blast
  from only_when changed obtain response detoxified where
    "?r = Response response" "detoxified_text response = Some detoxified"
    "quickDetoxify ?original ?el ?r
       = \<lparr>element_after = setTextContent ?el detoxified, announced = True\<rparr>"
    by blast
  then have rewritten: "quickDetoxify ?original ?el ?r
       = \<lparr>element_after = setTextContent ?el ''you are mistaken'', announced = True\<rparr>"
    by auto
  from known changed rewritten show ?thesis
    by (simp add: setTextContent_def)
qed

section \<open>The weights used in the fusion\<close>

lemma present_weight_positive:
  assumes "available c"
  shows "0 < present_weight available"
  using assms
  by (cases c; cases "available BaseClassifier"; cases "available ContextualAnalysis";
      cases "available SarcasmAdjustment"; cases "available NormalizationBoost")
     (simp_all add: present_weight_def present_components_def components_def)

lemma sum_list_divide:
  fixes f :: "'a \<Rightarrow> real"
  shows "sum_list (map (\<lambda>d. f d / k) xs) = sum_list (map f xs) / k"
  by (induction xs) (simp_all add: add_divide_distrib)

lemma used_weights_sum:
  assumes "available c"
  shows "sum_list (map (used_weight available) (present_components available)) = 1"
proof -
  have pos: "present_weight available \<noteq> 0"
    using present_weight_positive [of available c] assms by simp
  have "sum_list (map (used_weight available) (present_components available))
        = sum_list (map (\<lambda>d. weight d / present_weight available)
                     (present_components available))"
    by (rule arg_cong [where f = sum_list]) (simp add: used_weight_def present_components_def)
  also have "\<dots> = sum_list (map weight (present_components available))
                   / present_weight available"
    by (rule sum_list_divide)
  also have "\<dots> = 1"
    using pos by (simp add: present_weight_def)
  finally show ?thesis .
qed

lemma present_absent_weight:
  "present_weight available
   + sum_list (map weight (filter (\<lambda>c. \<not> available c) components)) = 1"
  by (cases "available BaseClassifier"; cases "available ContextualAnalysis";
      cases "available SarcasmAdjustment"; cases "available NormalizationBoost")
     (simp_all add: present_weight_def present_components_def components_def)

lemma used_weight_share:
  assumes "available c"
  shows "used_weight available c =
         weight c
         + weight c / present_weight available
           * sum_list (map weight (filter (\<lambda>d. \<not> available d) components))"
proof -
  have pos: "present_weight available \<noteq> 0"
    using present_weight_positive [of available c] assms by simp
  have absent: "sum_list (map weight (filter (\<lambda>d. \<not> available d) components))
                = 1 - present_weight available"
    using present_absent_weight [of available] by simp
  show ?thesis
    unfolding absent using assms pos by (simp add: used_weight_def field_simps)
qed

text \<open>
  Claim C3. For every set of present components that is not empty (here: \<open>c\<close> is present),
  the weights the fusion uses for the present components sum to 1, exactly and so within
  1e-9 (the arithmetic is that of the reals, not of floating point). A present component's
  weight is its fixed weight plus its proportional share of the absent components' total
  weight; an absent component has weight 0.
\<close>

theorem used_weights_sum_to_one:
  assumes "available c"
  shows "sum_list (map (used_weight available) (present_components available)) = 1
         \<and> \<bar>sum_list (map (used_weight available) (present_components available)) - 1\<bar>
             \<le> 1 / 10 ^ 9
         \<and> used_weight available c =
             weight c
             + weight c / present_weight available
               * sum_list (map weight (filter (\<lambda>d. \<not> available d) components))
         \<and> (\<forall>d. \<not> available d \<longrightarrow> used_weight available d = 0)"
proof -
  have total: "sum_list (map (used_weight available) (present_components available)) = 1"
    using assms by (rule used_weights_sum)
  have share: "used_weight available c =
             weight c
             + weight c / present_weight available
               * sum_list (map weight (filter (\<lambda>d. \<not> available d) components))"
    using assms by (rule used_weight_share)
  have absent: "\<forall>d. \<not> available d \<longrightarrow> used_weight available d = 0"
    by (simp add: used_weight_def)
  show ?thesis
    using share absent unfolding total by simp
qed

theorem used_weights_sum_to_one_witness:
  "sum_list (map (used_weight (\<lambda>c. c \<noteq> BaseClassifier))
               (present_components (\<lambda>c. c \<noteq> BaseClassifier))) = 1
   \<and> present_components (\<lambda>c. c \<noteq> BaseClassifier)
       = [ContextualAnalysis, SarcasmAdjustment, NormalizationBoost]
   \<and> used_weight (\<lambda>c. c \<noteq> BaseClassifier) ContextualAnalysis = 7 / 12
   \<and> used_weight (\<lambda>c. c \<noteq> BaseClassifier) BaseClassifier = 0"
proof -
  have present: "(\<lambda>c. c \<noteq> BaseClassifier) ContextualAnalysis"
    by simp
  from used_weights_sum_to_one [of "\<lambda>c. c \<noteq> BaseClassifier" ContextualAnalysis, OF present]
  show ?thesis
    by (simp add: present_components_def components_def present_weight_def used_weight_def)
qed

section \<open>Collapsing repeated characters\<close>

lemma maximal_runs_runs: "maximal_runs (runs xs)"
proof (induction xs)
  case Nil
  then show ?case by simp
next
  case (Cons x xs)
  show ?case
  proof (cases "runs xs" rule: maximal_runs.cases)
    case 1
    then show ?thesis by simp
  next
    case (2 rest)
    then show ?thesis using Cons by simp
  next
    case (3 y ys rest)
    then show ?thesis using Cons by simp
  qed
qed

lemma concat_runs: "concat (runs xs) = xs"
proof (induction xs)
  case Nil
  then show ?case by simp
next
  case (Cons x xs)
  show ?case
  proof (cases "runs xs" rule: maximal_runs.cases)
    case 1
    then show ?thesis using Cons by simp
  next
    case (2 rest)
    then show ?thesis using maximal_runs_runs [of xs] by simp
  next
    case (3 y ys rest)
    then show ?thesis using Cons by auto
  qed
qed

lemma runs_same_prefix:
  assumes "\<forall>y \<in> set xs. y = x"
  shows "runs (x # xs @ ys) =
     (case runs ys of
        (z # zs) # rest \<Rightarrow>
          if x = z then (x # xs @ z # zs) # rest else (x # xs) # (z # zs) # rest
      | _ \<Rightarrow> [x # xs])"
  using assms
proof (induction xs)
  case Nil
  show ?case
    by (cases "runs ys" rule: maximal_runs.cases) simp_all
next
  case (Cons a xs)
  then have a: "a = x" and same: "\<forall>y \<in> set xs. y = x"
    by simp_all
  note IH = Cons.IH [OF same]
  show ?case
  proof (cases "runs ys" rule: maximal_runs.cases)
    case 1
    then show ?thesis using IH a by simp
  next
    case (2 rest)
    then show ?thesis using maximal_runs_runs [of ys] by simp
  next
    case (3 z zs rest)
    then show ?thesis using IH a by simp
  qed
qed

lemma runs_concat: "maximal_runs rs \<Longrightarrow> runs (concat rs) = rs"
proof (induction rs rule: maximal_runs.induct)
  case 1
  then show ?case by simp
next
  case (2 rest)
  then show ?case by simp
next
  case (3 x xs rest)
  then have same: "\<forall>y \<in> set xs. y = x" and IH: "runs (concat rest) = rest"
    and diff: "(case rest of (z # zs) # others \<Rightarrow> z \<noteq> x | _ \<Rightarrow> True)"
    and mr: "maximal_runs rest"
    by simp_all
  have step: "runs (concat ((x # xs) # rest)) =
     (case rest of
        (z # zs) # others \<Rightarrow>
          if x = z then (x # xs @ z # zs) # others else (x # xs) # (z # zs) # others
      | _ \<Rightarrow> [x # xs])"
    using runs_same_prefix [OF same, of "concat rest"] IH by simp
  show ?case
  proof (cases rest rule: maximal_runs.cases)
    case 1
    then show ?thesis using step by simp
  next
    case (2 rest')
    then show ?thesis using mr by simp
  next
    case (3 z zs others)
    then show ?thesis using step diff by simp
  qed
qed

lemma collapse_run_Cons:
  "\<exists>ys. collapse_run (x # xs) = x # ys \<and> set ys \<subseteq> set xs"
proof (cases "3 \<le> length (x # xs)")
  case True
  then have "collapse_run (x # xs) = x # take 1 xs"
    by (simp add: collapse_run_def numeral_2_eq_2)
  then show ?thesis
    using set_take_subset [of 1 xs] by blast
next
  case False
  then show ?thesis by (simp add: collapse_run_def)
qed

lemma maximal_runs_collapse: "maximal_runs rs \<Longrightarrow> maximal_runs (map collapse_run rs)"
proof (induction rs rule: maximal_runs.induct)
  case 1
  then show ?case by simp
next
  case (2 rest)
  then show ?case by simp
next
  case (3 x xs rest)
  then have same: "\<forall>y \<in> set xs. y = x"
    and diff: "(case rest of (z # zs) # others \<Rightarrow> z \<noteq> x | _ \<Rightarrow> True)"
    and IH: "maximal_runs (map collapse_run rest)"
    by simp_all
  obtain ys where ys: "collapse_run (x # xs) = x # ys" "set ys \<subseteq> set xs"
    using collapse_run_Cons [of x xs] by auto
  have same': "\<forall>y \<in> set ys. y = x"
    using same ys(2) by blast
  show ?case
  proof (cases rest rule: maximal_runs.cases)
    case 1
    then show ?thesis using ys(1) same' by simp
  next
    case (2 rest')
    then show ?thesis using "3.prems" by simp
  next
    case (3 z zs others)
    obtain zs' where zs': "collapse_run (z # zs) = z # zs'"
      using collapse_run_Cons [of z zs] by auto
    have "z \<noteq> x" using diff 3 by simp
    then show ?thesis using 3 ys(1) same' zs' IH by simp
  qed
qed

lemma runs_collapse: "runs (collapse text) = map collapse_run (runs text)"
  unfolding collapse_def
  by (rule runs_concat) (rule maximal_runs_collapse, rule maximal_runs_runs)

lemma collapse_sooooo: "collapse ''sooooo'' = ''soo''"
  by code_simp

text \<open>
  Claim C6. The runs of a text are its maximal runs and make up the text. The maximal runs
  of the collapsed text are, in the same order, the collapsed runs of the input: a run of
  length 3 or more has become exactly its first 2 characters, a run of length at most 2 is
  unchanged, and no two collapsed runs have merged. In particular \<open>sooooo\<close> becomes
  \<open>soo\<close>.
\<close>

theorem collapse_maximal_runs:
  "concat (runs text) = text
   \<and> maximal_runs (runs text)
   \<and> runs (collapse text) = map collapse_run (runs text)
   \<and> (3 \<le> length run \<longrightarrow> collapse_run run = take 2 run \<and> length (collapse_run run) = 2)
   \<and> (length run \<le> 2 \<longrightarrow> collapse_run run = run)
   \<and> collapse ''sooooo'' = ''soo''"
proof -
  have whole: "concat (runs text) = text"
    by (rule concat_runs)
  have maximal: "maximal_runs (runs text)"
    by (rule maximal_runs_runs)
  have collapsed: "runs (collapse text) = map collapse_run (runs text)"
    by (rule runs_collapse)
  have long: "3 \<le> length run \<longrightarrow>
      collapse_run run = take 2 run \<and> length (collapse_run run) = 2"
    by (simp add: collapse_run_def)
  have short: "length run \<le> 2 \<longrightarrow> collapse_run run = run"
    by (simp add: collapse_run_def)
  from whole maximal collapsed long short collapse_sooooo show ?thesis
    by blast
qed

theorem collapse_maximal_runs_witness:
  "runs ''sooooo'' = [''s'', ''ooooo'']
   \<and> (3::nat) \<le> length ''ooooo''
   \<and> collapse_run ''ooooo'' = ''oo''
   \<and> length ''s'' \<le> (2::nat)
   \<and> collapse_run ''s'' = ''s''
   \<and> runs (collapse ''sooooo'') = [''s'', ''oo'']"
proof -
  have r: "runs ''sooooo'' = [''s'', ''ooooo'']"
    by simp
  from collapse_maximal_runs [of "''sooooo''" "''ooooo''"]
       collapse_maximal_runs [of "''sooooo''" "''s''"] r
  show ?thesis
    by simp
qed

end
